theory Spec2Isabelle
  imports Main "HOL-Library.Word" "HOL-Library.AList"
begin

section \<open>The filter-driven search page (src/pages/Index.tsx)\<close>

text \<open>
  The page component \<open>Index\<close> keeps five pieces of React state (\<open>filters\<close>,
  \<open>allVideos\<close>, \<open>displayedVideos\<close>, \<open>isLoading\<close>, \<open>visibleCount\<close>), persists the
  filters in \<open>localStorage\<close> as JSON, and calls the asynchronous \<open>searchVideos\<close>.
  The functions of the file are embedded one by one under their own names. What belongs to
  the platform (strings, \<open>localStorage\<close>, \<open>JSON\<close>, promises, React's rendering) is modelled
  explicitly in the first subsections, so that every effect of a handler is a value.
\<close>

subsection \<open>JavaScript strings and exceptions\<close>

text \<open>A JavaScript string is a sequence of UTF-16 code units.\<close>

type_synonym code_unit = "16 word"
type_synonym js_string = "code_unit list"

definition ascii :: "string \<Rightarrow> js_string" where
  "ascii s = map (\<lambda>c. of_nat (of_char c)) s"

datatype js_error = SecurityError | QuotaExceededError | SyntaxError | SearchError js_string

text \<open>
  A call either returns a value or throws. \<open>try_catch\<close> is \<open>try { body } catch { handler }\<close>.
\<close>

datatype 'a completion = Normal 'a | Throw js_error

definition try_catch :: "'a completion \<Rightarrow> (js_error \<Rightarrow> 'a completion) \<Rightarrow> 'a completion" where
  "try_catch body handler = (case body of Normal v \<Rightarrow> Normal v | Throw e \<Rightarrow> handler e)"

definition and_then :: "'a completion \<Rightarrow> ('a \<Rightarrow> 'b completion) \<Rightarrow> 'b completion" where
  "and_then m k = (case m of Normal v \<Rightarrow> k v | Throw e \<Rightarrow> Throw e)"

subsection \<open>The browser's localStorage\<close>

text \<open>
  \<open>localStorage\<close> is a keyed store of strings. Every access throws when the backend is
  not accessible (\<open>SecurityError\<close>); a write that would take the stored keys and values
  over the quota throws \<open>QuotaExceededError\<close> and stores nothing. \<open>getItem\<close> gives
  \<open>null\<close> (\<open>None\<close>) for an absent key.
\<close>

record storage =
  accessible :: bool
  quota :: nat
  items :: "(js_string \<times> js_string) list"

definition usage :: "(js_string \<times> js_string) list \<Rightarrow> nat" where
  "usage al = sum_list (map (\<lambda>(k, v). length k + length v) al)"

definition getItem :: "storage \<Rightarrow> js_string \<Rightarrow> js_string option completion" where
  "getItem st k = (if accessible st then Normal (map_of (items st) k) else Throw SecurityError)"

definition setItem :: "storage \<Rightarrow> js_string \<Rightarrow> js_string \<Rightarrow> storage completion" where
  "setItem st k v =
     (if \<not> accessible st then Throw SecurityError
      else let al = AList.update k v (items st) in
        if usage al > quota st then Throw QuotaExceededError
        else Normal (st\<lparr>items := al\<rparr>))"

subsection \<open>The filters\<close>

text \<open>
  Modelled from the spec: the type \<open>SearchFilters\<close> of \<open>@/types/search\<close> is not among the
  sources; the spec's FilterSet is a record with the fields \<open>language\<close>, \<open>source\<close>,
  \<open>durationBand\<close>, \<open>year\<close>, each a string, which are also the fields of the literal
  \<open>initialFilters\<close> in the source.
\<close>

record SearchFilters =
  language :: js_string
  source :: js_string
  durationBand :: js_string
  year :: js_string

text \<open>\<open>keyof SearchFilters\<close>, with the property name each key stands for.\<close>

datatype filter_key = Language | Source | DurationBand | Year

fun key_name :: "filter_key \<Rightarrow> js_string" where
  "key_name Language = ascii ''language''"
| "key_name Source = ascii ''source''"
| "key_name DurationBand = ascii ''durationBand''"
| "key_name Year = ascii ''year''"

fun get_field :: "filter_key \<Rightarrow> SearchFilters \<Rightarrow> js_string" where
  "get_field Language f = language f"
| "get_field Source f = source f"
| "get_field DurationBand f = durationBand f"
| "get_field Year f = year f"

text \<open>The object spread \<open>{ ...filters, [key]: value }\<close>.\<close>

fun spread_with :: "SearchFilters \<Rightarrow> filter_key \<Rightarrow> js_string \<Rightarrow> SearchFilters" where
  "spread_with f Language v = f\<lparr>language := v\<rparr>"
| "spread_with f Source v = f\<lparr>source := v\<rparr>"
| "spread_with f DurationBand v = f\<lparr>durationBand := v\<rparr>"
| "spread_with f Year v = f\<lparr>year := v\<rparr>"

definition STORAGE_KEY :: js_string where
  "STORAGE_KEY = ascii ''disha-filters''"

definition initialFilters :: SearchFilters where
  "initialFilters = \<lparr>language = [], source = [], durationBand = [], year = []\<rparr>"

subsection \<open>JSON.stringify on a filters object\<close>

text \<open>
  \<open>QuoteJSONString\<close> of ECMA-262 walks the code points of the string: a leading surrogate
  followed by a trailing one is one code point and is copied; a lone surrogate and a
  control character without a short escape are written \<open>\uXXXX\<close> with lower-case
  hexadecimal digits; the quote, the backslash and five control characters have two-character
  escapes.
\<close>

definition is_lead :: "code_unit \<Rightarrow> bool" where
  "is_lead c = (0xD800 \<le> c \<and> c \<le> 0xDBFF)"

definition is_trail :: "code_unit \<Rightarrow> bool" where
  "is_trail c = (0xDC00 \<le> c \<and> c \<le> 0xDFFF)"

definition hex_digit :: "nat \<Rightarrow> code_unit" where
  "hex_digit n = (if n < 10 then 0x30 + of_nat n else 0x61 + of_nat (n - 10))"

definition UnicodeEscape :: "code_unit \<Rightarrow> js_string" where
  "UnicodeEscape c =
     [0x5C, 0x75, hex_digit (unat c div 4096), hex_digit (unat c div 256 mod 16),
      hex_digit (unat c div 16 mod 16), hex_digit (unat c mod 16)]"

definition quote_unit :: "code_unit \<Rightarrow> js_string" where
  "quote_unit c =
     (if c = 0x08 then [0x5C, 0x62]
      else if c = 0x09 then [0x5C, 0x74]
      else if c = 0x0A then [0x5C, 0x6E]
      else if c = 0x0C then [0x5C, 0x66]
      else if c = 0x0D then [0x5C, 0x72]
      else if c = 0x22 then [0x5C, 0x22]
      else if c = 0x5C then [0x5C, 0x5C]
      else if c < 0x20 \<or> is_lead c \<or> is_trail c then UnicodeEscape c
      else [c])"

fun quote_units :: "js_string \<Rightarrow> js_string" where
  "quote_units [] = []"
| "quote_units [c] = quote_unit c"
| "quote_units (c # d # cs) =
     (if is_lead c \<and> is_trail d then c # d # quote_units cs
      else quote_unit c @ quote_units (d # cs))"

definition QuoteJSONString :: "js_string \<Rightarrow> js_string" where
  "QuoteJSONString s = 0x22 # quote_units s @ [0x22]"

text \<open>
  The properties of a filters object are serialised in creation order, which is that of
  the literal \<open>initialFilters\<close> and is kept by the spread; no gap, no indentation.
\<close>

definition json_member :: "filter_key \<Rightarrow> SearchFilters \<Rightarrow> js_string" where
  "json_member k f = QuoteJSONString (key_name k) @ [0x3A] @ QuoteJSONString (get_field k f)"

definition JSON_stringify :: "SearchFilters \<Rightarrow> js_string" where
  "JSON_stringify f =
     [0x7B] @ json_member Language f @ [0x2C] @ json_member Source f @ [0x2C]
       @ json_member DurationBand f @ [0x2C] @ json_member Year f @ [0x7D]"

subsection \<open>JSON.parse\<close>

text \<open>
  \<open>JSON.parse\<close> accepts the JSON grammar of ECMA-404 and throws \<open>SyntaxError\<close> on
  anything else. It is modelled as a pushdown automaton that reads one code unit at a time.
  A number is kept as its text, an object as its members in the order written (the
  object JavaScript builds is a function of that list).
\<close>

datatype js_value =
    JNull
  | JBool bool
  | JNumber js_string
  | JString js_string
  | JArray "js_value list"
  | JObject "(js_string \<times> js_value) list"

datatype frame =
    InArray "js_value list"
  | InObject "(js_string \<times> js_value) list"
  | InMember "(js_string \<times> js_value) list" js_string

datatype num_state = NMinus | NZero | NInt | NDot | NFrac | NExp | NExpSign | NExpDigits

datatype mode =
    Between
  | InStr js_string
  | InEsc js_string
  | InHex js_string nat nat
  | InNum num_state js_string
  | InLit js_string js_value

datatype expect = EValue | EValueOrEnd | EKeyOrEnd | EKey | EColon | ECommaOrEnd | EEof

record pstate =
  mode :: mode
  expect :: expect
  stack :: "frame list"
  result :: "js_value option"

definition is_ws :: "code_unit \<Rightarrow> bool" where
  "is_ws c = (c = 0x09 \<or> c = 0x0A \<or> c = 0x0D \<or> c = 0x20)"

definition is_digit :: "code_unit \<Rightarrow> bool" where
  "is_digit c = (0x30 \<le> c \<and> c \<le> 0x39)"

definition hexval :: "code_unit \<Rightarrow> nat option" where
  "hexval c =
     (if 0x30 \<le> c \<and> c \<le> 0x39 then Some (unat c - 0x30)
      else if 0x61 \<le> c \<and> c \<le> 0x66 then Some (unat c - 0x61 + 10)
      else if 0x41 \<le> c \<and> c \<le> 0x46 then Some (unat c - 0x41 + 10)
      else None)"

text \<open>A value is complete: it becomes the result, an array element or a member's value.\<close>

definition complete :: "js_value \<Rightarrow> pstate \<Rightarrow> pstate option" where
  "complete v p =
     (case stack p of
        [] \<Rightarrow> Some (p\<lparr>mode := Between, expect := EEof, result := Some v\<rparr>)
      | InArray xs # fs \<Rightarrow>
          Some (p\<lparr>mode := Between, expect := ECommaOrEnd, stack := InArray (v # xs) # fs\<rparr>)
      | InMember ms k # fs \<Rightarrow>
          Some (p\<lparr>mode := Between, expect := ECommaOrEnd, stack := InObject ((k, v) # ms) # fs\<rparr>)
      | InObject ms # fs \<Rightarrow> None)"

definition close_array :: "pstate \<Rightarrow> pstate option" where
  "close_array p =
     (case stack p of
        InArray xs # fs \<Rightarrow> complete (JArray (rev xs)) (p\<lparr>stack := fs\<rparr>)
      | _ \<Rightarrow> None)"

definition close_object :: "pstate \<Rightarrow> pstate option" where
  "close_object p =
     (case stack p of
        InObject ms # fs \<Rightarrow> complete (JObject (rev ms)) (p\<lparr>stack := fs\<rparr>)
      | _ \<Rightarrow> None)"

definition start_value :: "code_unit \<Rightarrow> pstate \<Rightarrow> pstate option" where
  "start_value c p =
     (if c = 0x22 then Some (p\<lparr>mode := InStr []\<rparr>)
      else if c = 0x7B then Some (p\<lparr>expect := EKeyOrEnd, stack := InObject [] # stack p\<rparr>)
      else if c = 0x5B then Some (p\<lparr>expect := EValueOrEnd, stack := InArray [] # stack p\<rparr>)
      else if c = 0x2D then Some (p\<lparr>mode := InNum NMinus [c]\<rparr>)
      else if c = 0x30 then Some (p\<lparr>mode := InNum NZero [c]\<rparr>)
      else if is_digit c then Some (p\<lparr>mode := InNum NInt [c]\<rparr>)
      else if c = 0x74 then Some (p\<lparr>mode := InLit (ascii ''rue'') (JBool True)\<rparr>)
      else if c = 0x66 then Some (p\<lparr>mode := InLit (ascii ''alse'') (JBool False)\<rparr>)
      else if c = 0x6E then Some (p\<lparr>mode := InLit (ascii ''ull'') JNull\<rparr>)
      else None)"

text \<open>A code unit between two tokens.\<close>

definition between :: "code_unit \<Rightarrow> pstate \<Rightarrow> pstate option" where
  "between c p =
     (if is_ws c then Some p
      else case expect p of
        EValue \<Rightarrow> start_value c p
      | EValueOrEnd \<Rightarrow> if c = 0x5D then close_array p else start_value c p
      | EKeyOrEnd \<Rightarrow>
          if c = 0x22 then Some (p\<lparr>mode := InStr []\<rparr>)
          else if c = 0x7D then close_object p else None
      | EKey \<Rightarrow> if c = 0x22 then Some (p\<lparr>mode := InStr []\<rparr>) else None
      | EColon \<Rightarrow> if c = 0x3A then Some (p\<lparr>expect := EValue\<rparr>) else None
      | ECommaOrEnd \<Rightarrow>
          if c = 0x2C then
            (case stack p of
               InArray xs # fs \<Rightarrow> Some (p\<lparr>expect := EValue\<rparr>)
             | InObject ms # fs \<Rightarrow> Some (p\<lparr>expect := EKey\<rparr>)
             | _ \<Rightarrow> None)
          else if c = 0x5D then close_array p
          else if c = 0x7D then close_object p
          else None
      | EEof \<Rightarrow> None)"

text \<open>The closing quote of a string: a member's key or a value.\<close>

definition end_string :: "js_string \<Rightarrow> pstate \<Rightarrow> pstate option" where
  "end_string s p =
     (if expect p = EKey \<or> expect p = EKeyOrEnd then
        (case stack p of
           InObject ms # fs \<Rightarrow>
             Some (p\<lparr>mode := Between, expect := EColon, stack := InMember ms s # fs\<rparr>)
         | _ \<Rightarrow> None)
      else complete (JString s) p)"

definition unescape :: "code_unit \<Rightarrow> code_unit option" where
  "unescape c =
     (if c = 0x22 then Some 0x22
      else if c = 0x5C then Some 0x5C
      else if c = 0x2F then Some 0x2F
      else if c = 0x62 then Some 0x08
      else if c = 0x66 then Some 0x0C
      else if c = 0x6E then Some 0x0A
      else if c = 0x72 then Some 0x0D
      else if c = 0x74 then Some 0x09
      else None)"

text \<open>
  The number automaton: \<open>None\<close> when the code unit does not continue the number.
\<close>

definition num_next :: "num_state \<Rightarrow> code_unit \<Rightarrow> num_state option" where
  "num_next n c =
     (case n of
        NMinus \<Rightarrow> if c = 0x30 then Some NZero else if is_digit c then Some NInt else None
      | NZero \<Rightarrow>
          if c = 0x2E then Some NDot else if c = 0x65 \<or> c = 0x45 then Some NExp else None
      | NInt \<Rightarrow>
          if is_digit c then Some NInt else if c = 0x2E then Some NDot
          else if c = 0x65 \<or> c = 0x45 then Some NExp else None
      | NDot \<Rightarrow> if is_digit c then Some NFrac else None
      | NFrac \<Rightarrow>
          if is_digit c then Some NFrac
          else if c = 0x65 \<or> c = 0x45 then Some NExp else None
      | NExp \<Rightarrow>
          if c = 0x2B \<or> c = 0x2D then Some NExpSign
          else if is_digit c then Some NExpDigits else None
      | NExpSign \<Rightarrow> if is_digit c then Some NExpDigits else None
      | NExpDigits \<Rightarrow> if is_digit c then Some NExpDigits else None)"

definition num_final :: "num_state \<Rightarrow> bool" where
  "num_final n = (n = NZero \<or> n = NInt \<or> n = NFrac \<or> n = NExpDigits)"

definition step :: "pstate \<Rightarrow> code_unit \<Rightarrow> pstate option" where
  "step p c =
     (case mode p of
        Between \<Rightarrow> between c p
      | InStr acc \<Rightarrow>
          if c = 0x22 then end_string (rev acc) p
          else if c = 0x5C then Some (p\<lparr>mode := InEsc acc\<rparr>)
          else if c < 0x20 then None
          else Some (p\<lparr>mode := InStr (c # acc)\<rparr>)
      | InEsc acc \<Rightarrow>
          if c = 0x75 then Some (p\<lparr>mode := InHex acc 0 0\<rparr>)
          else (case unescape c of
                  Some u \<Rightarrow> Some (p\<lparr>mode := InStr (u # acc)\<rparr>)
                | None \<Rightarrow> None)
      | InHex acc n k \<Rightarrow>
          (case hexval c of
             None \<Rightarrow> None
           | Some d \<Rightarrow>
               if k = 3 then Some (p\<lparr>mode := InStr (of_nat (n * 16 + d) # acc)\<rparr>)
               else Some (p\<lparr>mode := InHex acc (n * 16 + d) (Suc k)\<rparr>))
      | InNum n txt \<Rightarrow>
          (case num_next n c of
             Some n' \<Rightarrow> Some (p\<lparr>mode := InNum n' (c # txt)\<rparr>)
           | None \<Rightarrow>
               if num_final n then
                 (case complete (JNumber (rev txt)) p of
                    None \<Rightarrow> None
                  | Some p' \<Rightarrow> between c p')
               else None)
      | InLit rest v \<Rightarrow>
          (case rest of
             [] \<Rightarrow> None
           | r # rs \<Rightarrow>
               if c \<noteq> r then None
               else if rs = [] then complete v p
               else Some (p\<lparr>mode := InLit rs v\<rparr>)))"

fun run :: "pstate \<Rightarrow> js_string \<Rightarrow> pstate option" where
  "run p [] = Some p"
| "run p (c # cs) = (case step p c of None \<Rightarrow> None | Some p' \<Rightarrow> run p' cs)"

text \<open>The end of the text: a value must be complete, a number may end here.\<close>

definition finish :: "pstate \<Rightarrow> js_value option" where
  "finish p =
     (case mode p of
        Between \<Rightarrow> if expect p = EEof then result p else None
      | InNum n txt \<Rightarrow> if num_final n \<and> stack p = [] then Some (JNumber (rev txt)) else None
      | _ \<Rightarrow> None)"

definition parse_start :: pstate where
  "parse_start = \<lparr>mode = Between, expect = EValue, stack = [], result = None\<rparr>"

definition JSON_parse :: "js_string \<Rightarrow> js_value completion" where
  "JSON_parse text =
     (case run parse_start text of
        None \<Rightarrow> Throw SyntaxError
      | Some p \<Rightarrow> (case finish p of None \<Rightarrow> Throw SyntaxError | Some v \<Rightarrow> Normal v))"

subsection \<open>getStoredFilters and storeFilters\<close>

text \<open>
  \<open>getStoredFilters\<close> returns either the constant object \<open>initialFilters\<close> or whatever
  value \<open>JSON.parse\<close> built; TypeScript takes the latter for a \<open>SearchFilters\<close> without
  a check. \<open>as_SearchFilters\<close> reads a parsed value that is an object with exactly the four
  string properties, in the order \<open>JSON.stringify\<close> writes them; the component is followed
  on such values only.
\<close>

datatype filters_src = TheInitialFilters | FromJSON js_value

definition as_SearchFilters :: "js_value \<Rightarrow> SearchFilters option" where
  "as_SearchFilters v =
     (case v of
        JObject [(k1, JString a), (k2, JString b), (k3, JString c), (k4, JString d)] \<Rightarrow>
          if k1 = key_name Language \<and> k2 = key_name Source
             \<and> k3 = key_name DurationBand \<and> k4 = key_name Year
          then Some \<lparr>language = a, source = b, durationBand = c, year = d\<rparr>
          else None
      | _ \<Rightarrow> None)"

definition filters_of :: "filters_src \<Rightarrow> SearchFilters option" where
  "filters_of r = (case r of TheInitialFilters \<Rightarrow> Some initialFilters | FromJSON v \<Rightarrow> as_SearchFilters v)"

text \<open>
  \<^verbatim>\<open>
  try { const stored = localStorage.getItem(STORAGE_KEY);
        return stored ? JSON.parse(stored) : initialFilters; }
  catch { return initialFilters; }
  \<close>
  \<open>null\<close> and the empty string are the falsy values \<open>stored\<close> can have.
\<close>

definition getStoredFilters :: "storage \<Rightarrow> filters_src completion" where
  "getStoredFilters st =
     try_catch
       (and_then (getItem st STORAGE_KEY) (\<lambda>stored.
          case stored of
            None \<Rightarrow> Normal TheInitialFilters
          | Some text \<Rightarrow>
              if text = [] then Normal TheInitialFilters
              else and_then (JSON_parse text) (\<lambda>v. Normal (FromJSON v))))
       (\<lambda>e. Normal TheInitialFilters)"

text \<open>
  \<^verbatim>\<open>
  try { localStorage.setItem(STORAGE_KEY, JSON.stringify(filters)); }
  catch { /* Silently fail if localStorage is not available */ }
  \<close>
  The result is the storage after the call.
\<close>

definition storeFilters :: "SearchFilters \<Rightarrow> storage \<Rightarrow> storage completion" where
  "storeFilters f st =
     try_catch (setItem st STORAGE_KEY (JSON_stringify f)) (\<lambda>e. Normal st)"

subsection \<open>The component Index\<close>

text \<open>
  The record holds the five state variables of the component and what its effects reach:
  the storage, the toasts shown, the errors logged with \<open>console.error\<close>, and the calls of
  \<open>searchVideos\<close> (the argument of every call, oldest first, and the positions of the
  calls whose promise has not settled). \<open>filters_is_initialFilters\<close> tells whether
  \<open>filters\<close> is the very object \<open>initialFilters\<close>: React compares the dependencies of an
  effect with \<open>Object.is\<close>. \<open>VideoResult\<close> is opaque (\<open>'v\<close>).
\<close>

record toast =
  title :: js_string
  description :: js_string
  variant :: js_string

record 'v page =
  filters :: SearchFilters
  filters_is_initialFilters :: bool
  allVideos :: "'v list"
  displayedVideos :: "'v list"
  isLoading :: bool
  visibleCount :: nat
  localStorage :: storage
  toasts :: "toast list"
  console_error :: "js_error list"
  searchVideos_calls :: "SearchFilters list"
  pending :: "nat list"

text \<open>
  Modelled from the spec: \<open>searchVideos\<close> of \<open>@/lib/data\<close> is not among the sources; the
  spec's Search Executor is one asynchronous call per invocation that produces an ordered
  result list or fails. The promise of a call is fulfilled with a list or rejected with an
  error, and which of the two is not decided here.
\<close>

datatype 'v settled = Fulfilled "'v list" | Rejected js_error

definition search_failed_toast :: toast where
  "search_failed_toast =
     \<lparr>title = ascii ''Search failed'',
      description = ascii ''Unable to fetch results. Please try again.'',
      variant = ascii ''destructive''\<rparr>"

text \<open>
  \<open>performSearch\<close> up to its \<open>await\<close>: \<open>setIsLoading(true)\<close> and the call of
  \<open>searchVideos\<close>, whose promise is pending from then on.
\<close>

definition performSearch :: "SearchFilters \<Rightarrow> 'v page \<Rightarrow> 'v page" where
  "performSearch searchFilters s =
     s\<lparr>isLoading := True,
       searchVideos_calls := searchVideos_calls s @ [searchFilters],
       pending := pending s @ [length (searchVideos_calls s)]\<rparr>"

text \<open>
  \<open>performSearch\<close> after its \<open>await\<close>, when the promise has settled: the rest of the
  \<open>try\<close> block or the \<open>catch\<close> block, then \<open>finally\<close>. The first argument is the
  \<open>visibleCount\<close> that the closure reads in \<open>results.slice(0, visibleCount)\<close>;
  \<open>slice(0, n)\<close> is \<open>take n\<close>.
\<close>

fun performSearch_settled :: "nat \<Rightarrow> 'v settled \<Rightarrow> 'v page \<Rightarrow> 'v page" where
  "performSearch_settled vc (Fulfilled results) s =
     s\<lparr>allVideos := results, displayedVideos := take vc results, isLoading := False\<rparr>"
| "performSearch_settled vc (Rejected error) s =
     s\<lparr>console_error := console_error s @ [error],
       toasts := toasts s @ [search_failed_toast],
       isLoading := False\<rparr>"

text \<open>
  \<open>performSearch\<close> is memoised with \<open>useCallback(..., [toast])\<close>. The hook \<open>useToast\<close>
  is not among the sources; its \<open>toast\<close> is taken to be the same function in every
  render, so \<open>performSearch\<close> is the closure of the first render for the whole life of
  the component, and the \<open>visibleCount\<close> it reads is the initial \<open>useState(10)\<close>.
\<close>

definition performSearch_visibleCount :: nat where
  "performSearch_visibleCount = 10"

definition handleLoadMore :: "'v page \<Rightarrow> 'v page" where
  "handleLoadMore s =
     (let newCount = visibleCount s + 10
      in s\<lparr>visibleCount := newCount, displayedVideos := take newCount (allVideos s)\<rparr>)"

text \<open>The effect \<open>useEffect(() => { performSearch(filters) }, [filters, performSearch])\<close>.\<close>

definition useEffect_filters :: "'v page \<Rightarrow> 'v page" where
  "useEffect_filters s = performSearch (filters s) s"

definition handleFilterChange :: "filter_key \<Rightarrow> js_string \<Rightarrow> 'v page \<Rightarrow> 'v page completion" where
  "handleFilterChange key val s =
     (let newFilters = spread_with (filters s) key val
      in and_then (storeFilters newFilters (localStorage s)) (\<lambda>st.
           Normal (performSearch newFilters
             (s\<lparr>filters := newFilters, filters_is_initialFilters := False,
                localStorage := st\<rparr>))))"

definition handleClearFilters :: "'v page \<Rightarrow> 'v page completion" where
  "handleClearFilters s =
     and_then (storeFilters initialFilters (localStorage s)) (\<lambda>st.
       Normal (s\<lparr>filters := initialFilters, filters_is_initialFilters := True,
                 localStorage := st\<rparr>))"

text \<open>The condition under which the load-more button is rendered.\<close>

definition hasMore :: "'v page \<Rightarrow> bool" where
  "hasMore s = (length (allVideos s) > length (displayedVideos s))"

subsection \<open>Events\<close>

text \<open>
  Everything runs on one thread: a handler runs to its end, React renders, and the effect
  runs again when \<open>filters\<close> is another object than in the render before. The object
  built by the spread in \<open>handleFilterChange\<close> is always new; after \<open>handleClearFilters\<close>
  the object is \<open>initialFilters\<close>, new unless it was that object already. A click on the
  load-more button exists only while the button is rendered and not disabled. The promise
  of call number \<open>i\<close> settles at a moment and with an outcome that the environment chooses.
\<close>

definition filter_change_request :: "filter_key \<Rightarrow> js_string \<Rightarrow> 'v page \<Rightarrow> 'v page completion" where
  "filter_change_request key val s =
     and_then (handleFilterChange key val s) (\<lambda>s'. Normal (useEffect_filters s'))"

definition clear_filters_request :: "'v page \<Rightarrow> 'v page completion" where
  "clear_filters_request s =
     and_then (handleClearFilters s) (\<lambda>s'.
       Normal (if filters_is_initialFilters s then s' else useEffect_filters s'))"

definition load_more_click :: "'v page \<Rightarrow> 'v page" where
  "load_more_click s = (if hasMore s \<and> \<not> isLoading s then handleLoadMore s else s)"

definition settle :: "nat \<Rightarrow> 'v settled \<Rightarrow> 'v page \<Rightarrow> 'v page" where
  "settle i outcome s =
     (if i \<in> set (pending s)
      then performSearch_settled performSearch_visibleCount outcome
             (s\<lparr>pending := removeAll i (pending s)\<rparr>)
      else s)"

datatype 'v event =
    FilterChange filter_key js_string
  | ClearFilters
  | LoadMore
  | Settle nat "'v settled"

fun fire :: "'v event \<Rightarrow> 'v page \<Rightarrow> 'v page completion" where
  "fire (FilterChange key val) s = filter_change_request key val s"
| "fire ClearFilters s = clear_filters_request s"
| "fire LoadMore s = Normal (load_more_click s)"
| "fire (Settle i outcome) s = Normal (settle i outcome s)"

fun fire_all :: "'v event list \<Rightarrow> 'v page \<Rightarrow> 'v page completion" where
  "fire_all [] s = Normal s"
| "fire_all (e # es) s = and_then (fire e s) (fire_all es)"

text \<open>
  The first render and the first run of the effect, for the filters that \<open>useState\<close>
  received from \<open>getStoredFilters\<close>, a \<open>SearchFilters\<close> by the type annotation of the
  source; the second argument tells whether they are the object \<open>initialFilters\<close>.
\<close>

definition first_render :: "SearchFilters \<Rightarrow> bool \<Rightarrow> storage \<Rightarrow> 'v page" where
  "first_render f is_initial st =
     useEffect_filters
       \<lparr>filters = f, filters_is_initialFilters = is_initial, allVideos = [],
        displayedVideos = [], isLoading = False, visibleCount = 10, localStorage = st,
        toasts = [], console_error = [], searchVideos_calls = [], pending = []\<rparr>"

subsection \<open>Auxiliary notions for the statements\<close>

text \<open>\<open>returned m P\<close>: the call returns normally and its result satisfies \<open>P\<close>.\<close>

definition returned :: "'a completion \<Rightarrow> ('a \<Rightarrow> bool) \<Rightarrow> bool" where
  "returned m P = (case m of Normal v \<Rightarrow> P v | Throw e \<Rightarrow> False)"

text \<open>The value that \<open>JSON.parse\<close> builds from the text of a filters object.\<close>

definition json_of :: "SearchFilters \<Rightarrow> js_value" where
  "json_of f =
     JObject [(key_name Language, JString (language f)), (key_name Source, JString (source f)),
              (key_name DurationBand, JString (durationBand f)), (key_name Year, JString (year f))]"

text \<open>
  A fresh start: an accessible, empty storage, and the page after its first render, with
  natural numbers standing for the videos.
\<close>

definition fresh_storage :: storage where
  "fresh_storage = \<lparr>accessible = True, quota = 5242880, items = []\<rparr>"

definition fresh_page :: "nat page" where
  "fresh_page = first_render initialFilters True fresh_storage"

text \<open>
  A storage that refuses every access, one that is full, and one whose slot holds a text
  that is not JSON.
\<close>

definition blocked_storage :: storage where
  "blocked_storage = \<lparr>accessible = False, quota = 0, items = []\<rparr>"

definition full_storage :: storage where
  "full_storage = \<lparr>accessible = True, quota = 0, items = []\<rparr>"

text \<open>
  Two storages whose slot holds well-formed JSON that is not a filters object: \<open>null\<close>,
  and an object with one of the four fields.
\<close>

definition null_storage :: storage where
  "null_storage = \<lparr>accessible = True, quota = 5242880, items = [(STORAGE_KEY, ascii ''null'')]\<rparr>"

definition partial_storage :: storage where
  "partial_storage = \<lparr>accessible = True, quota = 5242880,
     items = [(STORAGE_KEY, ascii ''{\"language\":\"hi\"}'')]\<rparr>"

definition garbled_storage :: storage where
  "garbled_storage = \<lparr>accessible = True, quota = 5242880,
     items = [(STORAGE_KEY, ascii ''{language:hi'')]\<rparr>"

text \<open>
  Filters whose first field needs every kind of escape: a quote, a backslash, a line feed,
  a control character, a lone surrogate and a surrogate pair.
\<close>

definition odd_filters :: SearchFilters where
  "odd_filters = \<lparr>language = [0x68, 0x22, 0x5C, 0x0A, 0x01, 0xD800, 0xD83D, 0xDE00],
                  source = ascii ''youtube'', durationBand = [], year = ascii ''2023''\<rparr>"

section \<open>Properties\<close>

subsection \<open>Parsing what stringify wrote\<close>

text \<open>
  The automaton of \<open>JSON.parse\<close> is run over the text that \<open>JSON.stringify\<close> writes:
  first over one quoted code unit, then over a quoted string, a member and the whole object.
\<close>

lemma run_append:
  "run p (xs @ ys) = (case run p xs of None \<Rightarrow> None | Some p' \<Rightarrow> run p' ys)"
  by (induction xs arbitrary: p) (simp_all split: option.splits)

lemma hexval_hex_digits: "\<forall>n \<in> set [0..<16]. hexval (hex_digit n) = Some n"
  by code_simp

lemma hexval_hex_digit: "n < 16 \<Longrightarrow> hexval (hex_digit n) = Some n"
  using hexval_hex_digits by simp

lemma nibbles_nat:
  "((u div 4096 * 16 + u div 256 mod 16) * 16 + u div 16 mod 16) * 16 + u mod 16 = (u::nat)"
proof -
  have a: "u div 4096 = u div 256 div 16" "u div 256 = u div 16 div 16"
    by (simp_all add: div_mult2_eq)
  have "u div 4096 * 16 + u div 256 mod 16 = u div 256"
    unfolding a(1) by simp
  moreover have "u div 256 * 16 + u div 16 mod 16 = u div 16"
    unfolding a(2) by simp
  ultimately show ?thesis by simp
qed

lemma unat_div_4096: "unat (c::code_unit) div 4096 < 16"
proof -
  have "unat c < 65536" using unsigned_less [of c] by simp
  then show ?thesis by simp
qed

lemma lead_plain: "is_lead c \<Longrightarrow> c \<noteq> 0x22 \<and> c \<noteq> 0x5C \<and> \<not> c < 0x20"
proof -
  assume l: "is_lead c"
  have "c < 0x20 \<Longrightarrow> False"
  proof -
    assume "c < 0x20"
    with l have "(0xD800::code_unit) < 0x20" unfolding is_lead_def by (meson order.strict_trans1)
    then show False by simp
  qed
  moreover have "c \<noteq> 0x22" "c \<noteq> 0x5C" using l by (auto simp: is_lead_def)
  ultimately show ?thesis by blast
qed

lemma trail_plain: "is_trail c \<Longrightarrow> c \<noteq> 0x22 \<and> c \<noteq> 0x5C \<and> \<not> c < 0x20"
proof -
  assume l: "is_trail c"
  have "c < 0x20 \<Longrightarrow> False"
  proof -
    assume "c < 0x20"
    with l have "(0xDC00::code_unit) < 0x20" unfolding is_trail_def by (meson order.strict_trans1)
    then show False by simp
  qed
  moreover have "c \<noteq> 0x22" "c \<noteq> 0x5C" using l by (auto simp: is_trail_def)
  ultimately show ?thesis by blast
qed


lemma step_InStr_plain:
  "mode p = InStr acc \<Longrightarrow> c \<noteq> 0x22 \<Longrightarrow> c \<noteq> 0x5C \<Longrightarrow> \<not> c < 0x20 \<Longrightarrow>
   step p c = Some (p\<lparr>mode := InStr (c # acc)\<rparr>)"
  by (simp add: step_def)

lemma run_UnicodeEscape:
  assumes "mode p = InStr acc"
  shows "run p (UnicodeEscape c @ rest) = run (p\<lparr>mode := InStr (c # acc)\<rparr>) rest"
proof -
  have v: "of_nat (((unat c div 4096 * 16 + unat c div 256 mod 16) * 16 + unat c div 16 mod 16) * 16 + unat c mod 16) = c"
    by (simp only: nibbles_nat) simp
  have h: "hexval (hex_digit (unat c div 4096)) = Some (unat c div 4096)"
     "hexval (hex_digit (unat c div 256 mod 16)) = Some (unat c div 256 mod 16)"
     "hexval (hex_digit (unat c div 16 mod 16)) = Some (unat c div 16 mod 16)"
     "hexval (hex_digit (unat c mod 16)) = Some (unat c mod 16)"
    by (simp_all add: hexval_hex_digit unat_div_4096)
  show ?thesis
    using assms v by (simp add: UnicodeEscape_def step_def h)
qed

lemma run_quote_unit:
  assumes "mode p = InStr acc"
  shows "run p (quote_unit c @ rest) = run (p\<lparr>mode := InStr (c # acc)\<rparr>) rest"
proof -
  consider (short) "c = 0x08 \<or> c = 0x09 \<or> c = 0x0A \<or> c = 0x0C \<or> c = 0x0D \<or> c = 0x22 \<or> c = 0x5C"
    | (uni) "\<not> (c = 0x08 \<or> c = 0x09 \<or> c = 0x0A \<or> c = 0x0C \<or> c = 0x0D \<or> c = 0x22 \<or> c = 0x5C)"
        "c < 0x20 \<or> is_lead c \<or> is_trail c"
    | (plain) "\<not> (c = 0x08 \<or> c = 0x09 \<or> c = 0x0A \<or> c = 0x0C \<or> c = 0x0D \<or> c = 0x22 \<or> c = 0x5C)"
        "\<not> (c < 0x20 \<or> is_lead c \<or> is_trail c)"
    by blast
  then show ?thesis
  proof cases
    case short
    then show ?thesis
      using assms by (elim disjE) (simp_all add: quote_unit_def step_def unescape_def)
  next
    case uni
    then have "quote_unit c = UnicodeEscape c" by (simp add: quote_unit_def)
    then show ?thesis using run_UnicodeEscape [OF assms] by simp
  next
    case plain
    then have "quote_unit c = [c]" by (simp add: quote_unit_def)
    moreover have "step p c = Some (p\<lparr>mode := InStr (c # acc)\<rparr>)"
      using plain assms by (intro step_InStr_plain) auto
    ultimately show ?thesis by simp
  qed
qed

lemma run_quote_units:
  "mode p = InStr acc \<Longrightarrow>
   run p (quote_units s @ rest) = run (p\<lparr>mode := InStr (rev s @ acc)\<rparr>) rest"
proof (induction s arbitrary: p acc rule: quote_units.induct)
  case 1
  then have "p\<lparr>mode := InStr acc\<rparr> = p" by (cases p) simp
  then show ?case by simp
next
  case (2 c)
  then show ?case using run_quote_unit [of p acc c rest] by simp
next
  case (3 c d cs)
  show ?case
  proof (cases "is_lead c \<and> is_trail d")
    case True
    have s1: "step p c = Some (p\<lparr>mode := InStr (c # acc)\<rparr>)"
      using True lead_plain [of c] 3(3) by (intro step_InStr_plain) auto
    have s2: "step (p\<lparr>mode := InStr (c # acc)\<rparr>) d = Some (p\<lparr>mode := InStr (d # c # acc)\<rparr>)"
      using True trail_plain [of d] by (simp add: step_def)
    have "run (p\<lparr>mode := InStr (d # c # acc)\<rparr>) (quote_units cs @ rest)
          = run (p\<lparr>mode := InStr (rev cs @ d # c # acc)\<rparr>) rest"
      using "3.IH"(1) [OF True, of "p\<lparr>mode := InStr (d # c # acc)\<rparr>" "d # c # acc"] by simp
    then show ?thesis using True s1 s2 by simp
  next
    case False
    have "run (p\<lparr>mode := InStr (c # acc)\<rparr>) (quote_units (d # cs) @ rest)
          = run (p\<lparr>mode := InStr (rev (d # cs) @ c # acc)\<rparr>) rest"
      using "3.IH"(2) [OF False, of "p\<lparr>mode := InStr (c # acc)\<rparr>" "c # acc"] by simp
    moreover have "quote_units (c # d # cs) = quote_unit c @ quote_units (d # cs)"
      using False by auto
    ultimately show ?thesis
      using run_quote_unit [OF 3(3), of c "quote_units (d # cs) @ rest"] by simp
  qed
qed


lemma run_string_value:
  "run \<lparr>mode = Between, expect = EValue, stack = InMember ms k # fs, result = r\<rparr>
       (QuoteJSONString s @ rest)
   = run \<lparr>mode = Between, expect = ECommaOrEnd, stack = InObject ((k, JString s) # ms) # fs,
          result = r\<rparr> rest"
proof -
  let ?p = "\<lparr>mode = InStr [], expect = EValue, stack = InMember ms k # fs, result = r\<rparr>"
  have "run ?p (quote_units s @ 0x22 # rest) = run (?p\<lparr>mode := InStr (rev s @ [])\<rparr>) (0x22 # rest)"
    by (rule run_quote_units) simp
  then show ?thesis
    by (simp add: QuoteJSONString_def step_def between_def is_ws_def start_value_def
          end_string_def complete_def)
qed

lemma run_string_key:
  assumes "e = EKey \<or> e = EKeyOrEnd"
  shows "run \<lparr>mode = Between, expect = e, stack = InObject ms # fs, result = r\<rparr>
       (QuoteJSONString k @ rest)
   = run \<lparr>mode = Between, expect = EColon, stack = InMember ms k # fs, result = r\<rparr> rest"
proof -
  let ?p = "\<lparr>mode = InStr [], expect = e, stack = InObject ms # fs, result = r\<rparr>"
  have "run ?p (quote_units k @ 0x22 # rest) = run (?p\<lparr>mode := InStr (rev k @ [])\<rparr>) (0x22 # rest)"
    by (rule run_quote_units) simp
  then show ?thesis
    using assms
    by (auto simp add: QuoteJSONString_def step_def between_def is_ws_def end_string_def)
qed

lemma run_json_member:
  assumes "e = EKey \<or> e = EKeyOrEnd"
  shows "run \<lparr>mode = Between, expect = e, stack = InObject ms # fs, result = r\<rparr>
       (json_member k f @ rest)
   = run \<lparr>mode = Between, expect = ECommaOrEnd,
          stack = InObject ((key_name k, JString (get_field k f)) # ms) # fs, result = r\<rparr> rest"
proof -
  have colon: "step \<lparr>mode = Between, expect = EColon, stack = InMember ms (key_name k) # fs, result = r\<rparr> 0x3A
      = Some \<lparr>mode = Between, expect = EValue, stack = InMember ms (key_name k) # fs, result = r\<rparr>"
    by (simp add: step_def between_def is_ws_def)
  show ?thesis
    unfolding json_member_def append_assoc
    by (simp only: run_string_key [OF assms] append_Cons append_Nil run.simps colon option.case
          run_string_value)
qed

lemma step_comma:
  "step \<lparr>mode = Between, expect = ECommaOrEnd, stack = InObject ms # fs, result = r\<rparr> 0x2C
   = Some \<lparr>mode = Between, expect = EKey, stack = InObject ms # fs, result = r\<rparr>"
  by (simp add: step_def between_def is_ws_def)

lemma JSON_parse_stringify: "JSON_parse (JSON_stringify f) = Normal (json_of f)"
proof -
  have open_brace: "step parse_start 0x7B
      = Some \<lparr>mode = Between, expect = EKeyOrEnd, stack = [InObject []], result = None\<rparr>"
    by (simp add: step_def between_def is_ws_def parse_start_def start_value_def)
  have close_brace: "\<And>ms. step \<lparr>mode = Between, expect = ECommaOrEnd, stack = [InObject ms], result = None\<rparr> 0x7D
      = Some \<lparr>mode = Between, expect = EEof, stack = [], result = Some (JObject (rev ms))\<rparr>"
    by (simp add: step_def between_def is_ws_def close_object_def complete_def)
  have "run parse_start (JSON_stringify f)
      = Some \<lparr>mode = Between, expect = EEof, stack = [], result = Some (json_of f)\<rparr>"
    unfolding JSON_stringify_def append_assoc
    by (simp only: append_Cons append_Nil run.simps open_brace option.case
          run_json_member [of EKeyOrEnd, simplified] run_json_member [of EKey, simplified]
          step_comma close_brace)
       (simp add: json_of_def)
  then show ?thesis
    by (simp add: JSON_parse_def finish_def)
qed

lemma as_SearchFilters_json_of: "as_SearchFilters (json_of f) = Some f"
  by (simp add: as_SearchFilters_def json_of_def)

subsection \<open>Storing never throws\<close>

lemma storeFilters_returns: "\<exists>st'. storeFilters f st = Normal st'"
  by (cases "setItem st STORAGE_KEY (JSON_stringify f)") (simp_all add: storeFilters_def try_catch_def)

subsection \<open>Loading and storing the filters\<close>

lemma JSON_stringify_nonempty: "JSON_stringify f \<noteq> []"
  by (simp add: JSON_stringify_def)

lemma getStoredFilters_returns: "\<exists>r. getStoredFilters st = Normal r"
  by (cases "getItem st STORAGE_KEY")
     (auto simp: getStoredFilters_def try_catch_def and_then_def
           split: option.splits completion.splits)

lemma parse_null: "JSON_parse (ascii ''null'') = Normal JNull"
  by code_simp

lemma parse_partial:
  "JSON_parse (ascii ''{\"language\":\"hi\"}'')
   = Normal (JObject [(ascii ''language'', JString (ascii ''hi''))])"
  by code_simp

lemma getStoredFilters_parsed:
  "accessible st \<Longrightarrow> map_of (items st) STORAGE_KEY = Some t \<Longrightarrow> t \<noteq> [] \<Longrightarrow>
   JSON_parse t = Normal v \<Longrightarrow> getStoredFilters st = Normal (FromJSON v)"
  by (simp add: getStoredFilters_def getItem_def try_catch_def and_then_def)

text \<open>
  C7, as stated, fails for stored content that is malformed as a FilterSet but well-formed as
  JSON. With \<open>null\<close> in the slot, or an object that has only the field \<open>language\<close>,
  \<open>JSON.parse\<close> does not throw and \<open>getStoredFilters\<close> returns what it parsed, not the
  default FilterSet: the source checks no shape.
\<close>

theorem load_shape_counterexample:
  "getStoredFilters null_storage = Normal (FromJSON JNull)
   \<and> getStoredFilters null_storage \<noteq> Normal TheInitialFilters
   \<and> filters_of (FromJSON JNull) \<noteq> Some initialFilters
   \<and> getStoredFilters partial_storage
       = Normal (FromJSON (JObject [(ascii ''language'', JString (ascii ''hi''))]))
   \<and> getStoredFilters partial_storage \<noteq> Normal TheInitialFilters
   \<and> filters_of (FromJSON (JObject [(ascii ''language'', JString (ascii ''hi''))]))
       \<noteq> Some initialFilters"
proof -
  have a: "getStoredFilters null_storage = Normal (FromJSON JNull)"
    by (rule getStoredFilters_parsed [OF _ _ _ parse_null])
       (simp_all add: null_storage_def ascii_def)
  have b: "getStoredFilters partial_storage
       = Normal (FromJSON (JObject [(ascii ''language'', JString (ascii ''hi''))]))"
    by (rule getStoredFilters_parsed [OF _ _ _ parse_partial])
       (simp_all add: partial_storage_def ascii_def)
  show ?thesis
    unfolding a b by (simp add: filters_of_def as_SearchFilters_def)
qed

text \<open>
  C7, amended. \<open>getStoredFilters\<close> returns the constant \<open>initialFilters\<close>, whose four
  fields are empty strings, when the storage is not accessible, when the slot is absent or
  empty, and when the slot holds a text on which \<open>JSON.parse\<close> throws. Any other stored
  text is well-formed JSON, and its parsed value is returned as it is. \<open>getStoredFilters\<close>
  returns normally on every storage. \<open>storeFilters\<close> returns normally on every storage too,
  and when \<open>setItem\<close> throws, for whatever reason, the storage is what it was.
\<close>

theorem load_defaults_or_parsed:
  "(\<not> accessible st
      \<or> map_of (items st) STORAGE_KEY = None
      \<or> map_of (items st) STORAGE_KEY = Some []
      \<or> (\<exists>t. map_of (items st) STORAGE_KEY = Some t \<and> JSON_parse t = Throw SyntaxError)
     \<longrightarrow> getStoredFilters st = Normal TheInitialFilters)
   \<and> filters_of TheInitialFilters
       = Some \<lparr>language = [], source = [], durationBand = [], year = []\<rparr>
   \<and> (\<forall>t v. accessible st \<and> map_of (items st) STORAGE_KEY = Some t \<and> t \<noteq> []
          \<and> JSON_parse t = Normal v
        \<longrightarrow> getStoredFilters st = Normal (FromJSON v))
   \<and> (\<exists>r. getStoredFilters st = Normal r)
   \<and> (\<exists>st'. storeFilters f st = Normal st')
   \<and> (\<forall>e. setItem st STORAGE_KEY (JSON_stringify f) = Throw e \<longrightarrow> storeFilters f st = Normal st)"
proof -
  have "getStoredFilters st = Normal TheInitialFilters" if "\<not> accessible st"
    using that by (simp add: getStoredFilters_def getItem_def try_catch_def and_then_def)
  moreover have "getStoredFilters st = Normal TheInitialFilters"
    if "map_of (items st) STORAGE_KEY = None"
    using that by (simp add: getStoredFilters_def getItem_def try_catch_def and_then_def)
  moreover have "getStoredFilters st = Normal TheInitialFilters"
    if "map_of (items st) STORAGE_KEY = Some []"
    using that by (simp add: getStoredFilters_def getItem_def try_catch_def and_then_def)
  moreover have "getStoredFilters st = Normal TheInitialFilters"
    if "map_of (items st) STORAGE_KEY = Some t" "JSON_parse t = Throw SyntaxError" for t
    using that by (simp add: getStoredFilters_def getItem_def try_catch_def and_then_def)
  moreover have "storeFilters f st = Normal st"
    if "setItem st STORAGE_KEY (JSON_stringify f) = Throw e" for e
    using that by (simp add: storeFilters_def try_catch_def)
  ultimately show ?thesis
    using getStoredFilters_returns [of st] storeFilters_returns [of f st]
      getStoredFilters_parsed [of st]
    by (auto simp: filters_of_def initialFilters_def)
qed

theorem load_defaults_or_parsed_witness:
  "\<not> accessible blocked_storage
   \<and> getStoredFilters blocked_storage = Normal TheInitialFilters
   \<and> setItem blocked_storage STORAGE_KEY (JSON_stringify initialFilters) = Throw SecurityError
   \<and> storeFilters initialFilters blocked_storage = Normal blocked_storage
   \<and> setItem full_storage STORAGE_KEY (JSON_stringify initialFilters) = Throw QuotaExceededError
   \<and> storeFilters initialFilters full_storage = Normal full_storage
   \<and> map_of (items fresh_storage) STORAGE_KEY = None
   \<and> getStoredFilters fresh_storage = Normal TheInitialFilters
   \<and> map_of (items garbled_storage) STORAGE_KEY = Some (ascii ''{language:hi'')
   \<and> JSON_parse (ascii ''{language:hi'') = Throw SyntaxError
   \<and> getStoredFilters garbled_storage = Normal TheInitialFilters
   \<and> accessible null_storage
   \<and> map_of (items null_storage) STORAGE_KEY = Some (ascii ''null'')
   \<and> ascii ''null'' \<noteq> []
   \<and> JSON_parse (ascii ''null'') = Normal JNull
   \<and> getStoredFilters null_storage = Normal (FromJSON JNull)"
proof -
  have a: "\<not> accessible blocked_storage" by (simp add: blocked_storage_def)
  have b: "map_of (items fresh_storage) STORAGE_KEY = None" by (simp add: fresh_storage_def)
  have c: "map_of (items garbled_storage) STORAGE_KEY = Some (ascii ''{language:hi'')"
    by (simp add: garbled_storage_def)
  have d: "JSON_parse (ascii ''{language:hi'') = Throw SyntaxError" by code_simp
  have e: "setItem blocked_storage STORAGE_KEY (JSON_stringify initialFilters) = Throw SecurityError"
    by (simp add: setItem_def blocked_storage_def)
  have f: "setItem full_storage STORAGE_KEY (JSON_stringify initialFilters) = Throw QuotaExceededError"
    by (simp add: setItem_def full_storage_def usage_def STORAGE_KEY_def ascii_def)
  have g: "accessible null_storage" "map_of (items null_storage) STORAGE_KEY = Some (ascii ''null'')"
    "ascii ''null'' \<noteq> []"
    by (simp_all add: null_storage_def ascii_def)
  show ?thesis
    using a b c d e f g parse_null
      load_defaults_or_parsed [of null_storage initialFilters]
      load_defaults_or_parsed [of blocked_storage initialFilters]
      load_defaults_or_parsed [of full_storage initialFilters]
      load_defaults_or_parsed [of fresh_storage initialFilters]
      load_defaults_or_parsed [of garbled_storage initialFilters]
    by blast
qed

text \<open>
  C8. On an accessible storage with room for the text, \<open>getStoredFilters\<close> right after
  \<open>storeFilters f\<close> returns the value parsed from the text of \<open>f\<close>, which read as a
  \<open>SearchFilters\<close> is \<open>f\<close>, field by field.
\<close>

theorem save_then_load:
  assumes "accessible st"
    and "usage (AList.update STORAGE_KEY (JSON_stringify f) (items st)) \<le> quota st"
  shows "returned (storeFilters f st) (\<lambda>st'.
           returned (getStoredFilters st') (\<lambda>r. r = FromJSON (json_of f) \<and> filters_of r = Some f))"
proof -
  let ?st' = "st\<lparr>items := AList.update STORAGE_KEY (JSON_stringify f) (items st)\<rparr>"
  have store: "storeFilters f st = Normal ?st'"
    using assms by (simp add: storeFilters_def setItem_def try_catch_def Let_def)
  have "getItem ?st' STORAGE_KEY = Normal (Some (JSON_stringify f))"
    using assms(1) by (simp add: getItem_def update_conv')
  then have "getStoredFilters ?st' = Normal (FromJSON (json_of f))"
    by (simp add: getStoredFilters_def try_catch_def and_then_def JSON_stringify_nonempty
          JSON_parse_stringify)
  then show ?thesis
    using store by (simp add: returned_def filters_of_def as_SearchFilters_json_of)
qed

lemma odd_filters_fit:
  "usage (AList.update STORAGE_KEY (JSON_stringify odd_filters) (items fresh_storage))
     \<le> quota fresh_storage"
  by (simp add: usage_def fresh_storage_def STORAGE_KEY_def ascii_def JSON_stringify_def
        json_member_def QuoteJSONString_def odd_filters_def quote_unit_def is_lead_def
        is_trail_def UnicodeEscape_def hex_digit_def)

theorem save_then_load_witness:
  "accessible fresh_storage
   \<and> usage (AList.update STORAGE_KEY (JSON_stringify odd_filters) (items fresh_storage))
       \<le> quota fresh_storage
   \<and> returned (storeFilters odd_filters fresh_storage) (\<lambda>st'.
        returned (getStoredFilters st') (\<lambda>r. r = FromJSON (json_of odd_filters) \<and> filters_of r = Some odd_filters))"
proof -
  have a: "accessible fresh_storage" by (simp add: fresh_storage_def)
  show ?thesis
    by (intro conjI a odd_filters_fit save_then_load [OF a odd_filters_fit])
qed

subsection \<open>The pagination window under load-more\<close>

lemma handleLoadMore_funpow_visibleCount:
  "visibleCount ((handleLoadMore ^^ n) s) = visibleCount s + 10 * n"
  by (induction n) (simp_all add: handleLoadMore_def Let_def)

lemma handleLoadMore_funpow_allVideos:
  "allVideos ((handleLoadMore ^^ n) s) = allVideos s"
  by (induction n) (simp_all add: handleLoadMore_def Let_def)

lemma handleLoadMore_displayed:
  "displayedVideos (handleLoadMore s)
   = take (visibleCount (handleLoadMore s)) (allVideos (handleLoadMore s))"
  by (simp add: handleLoadMore_def Let_def)

text \<open>
  What load-more requests guarantee, from any state: \<open>n\<close> requests in a row add exactly
  10 each to \<open>visibleCount\<close>, which therefore never decreases; the result list is left
  alone; and after each request the displayed list is the prefix of the result list of
  length \<open>min visibleCount |allVideos|\<close>, in the order of the results and never longer
  than the result list.
\<close>

lemma load_more_window:
  "visibleCount ((handleLoadMore ^^ n) s) = visibleCount s + 10 * n
   \<and> visibleCount ((handleLoadMore ^^ n) s) \<le> visibleCount ((handleLoadMore ^^ Suc n) s)
   \<and> allVideos ((handleLoadMore ^^ Suc n) s) = allVideos s
   \<and> displayedVideos ((handleLoadMore ^^ Suc n) s)
       = take (min (visibleCount ((handleLoadMore ^^ Suc n) s)) (length (allVideos s)))
           (allVideos s)
   \<and> length (displayedVideos ((handleLoadMore ^^ Suc n) s)) \<le> length (allVideos s)"
proof -
  let ?t = "(handleLoadMore ^^ n) s"
  have step: "(handleLoadMore ^^ Suc n) s = handleLoadMore ?t" by simp
  have all: "allVideos (handleLoadMore ?t) = allVideos s"
    using handleLoadMore_funpow_allVideos [of "Suc n" s] by simp
  have shown: "displayedVideos (handleLoadMore ?t)
      = take (visibleCount (handleLoadMore ?t)) (allVideos s)"
    using handleLoadMore_displayed [of ?t] all by simp
  have count: "visibleCount (handleLoadMore ?t) = visibleCount ?t + 10"
    by (simp add: handleLoadMore_def Let_def)
  show ?thesis
    unfolding step using all shown count handleLoadMore_funpow_visibleCount [of n s]
    by (simp add: min_def)
qed

subsection \<open>A search that fails\<close>

text \<open>
  C3. When the promise of \<open>searchVideos\<close> is rejected, the continuation of
  \<open>performSearch\<close> calls \<open>toast\<close> exactly once, with the fixed title, description and
  variant of \<open>search_failed_toast\<close>, and leaves the loading flag cleared: the source keeps no
  other mark of the Failed state. It changes neither \<open>allVideos\<close> nor \<open>displayedVideos\<close> nor
  \<open>visibleCount\<close>, and the start of the attempt (up to the \<open>await\<close>) had changed none of
  them and had shown no toast.
\<close>

theorem search_failure:
  "toasts (performSearch_settled vc (Rejected e) s) = toasts s @ [search_failed_toast]
   \<and> \<not> isLoading (performSearch_settled vc (Rejected e) s)
   \<and> allVideos (performSearch_settled vc (Rejected e) s) = allVideos s
   \<and> displayedVideos (performSearch_settled vc (Rejected e) s) = displayedVideos s
   \<and> visibleCount (performSearch_settled vc (Rejected e) s) = visibleCount s
   \<and> toasts (performSearch f s) = toasts s
   \<and> allVideos (performSearch f s) = allVideos s
   \<and> displayedVideos (performSearch f s) = displayedVideos s
   \<and> visibleCount (performSearch f s) = visibleCount s"
  by (simp add: performSearch_def)

subsection \<open>The loading flag\<close>

text \<open>
  C10. Whatever the outcome of a search, fulfilled or rejected, the continuation of
  \<open>performSearch\<close> ends with \<open>isLoading\<close> false (the \<open>finally\<close> block); and a filter
  change after it returns and calls \<open>searchVideos\<close> again with the new filters.
\<close>

theorem loading_flag_cleared:
  "\<not> isLoading (performSearch_settled vc outcome s)
   \<and> returned (filter_change_request key val (performSearch_settled vc outcome s)) (\<lambda>s'.
        searchVideos_calls s' = searchVideos_calls s
           @ [spread_with (filters s) key val, spread_with (filters s) key val])"
proof -
  obtain st' where "storeFilters (spread_with (filters s) key val) (localStorage s) = Normal st'"
    using storeFilters_returns by blast
  then show ?thesis
    by (cases outcome)
       (simp_all add: returned_def filter_change_request_def handleFilterChange_def
          and_then_def useEffect_filters_def performSearch_def Let_def)
qed

subsection \<open>The handlers as state changes\<close>

text \<open>
  Since \<open>storeFilters\<close> always returns, each request returns, and its result can be written
  out. The new storage is left as the outcome of \<open>setItem\<close>.
\<close>

lemma storeFilters_eq:
  "storeFilters f st
   = Normal (case setItem st STORAGE_KEY (JSON_stringify f) of Normal st' \<Rightarrow> st' | Throw e \<Rightarrow> st)"
  by (simp add: storeFilters_def try_catch_def split: completion.splits)

lemma handleFilterChange_eq:
  "handleFilterChange key val s
   = Normal (performSearch (spread_with (filters s) key val)
       (s\<lparr>filters := spread_with (filters s) key val, filters_is_initialFilters := False,
          localStorage := (case setItem (localStorage s) STORAGE_KEY
                                  (JSON_stringify (spread_with (filters s) key val)) of
                             Normal st' \<Rightarrow> st' | Throw e \<Rightarrow> localStorage s)\<rparr>))"
  by (simp add: handleFilterChange_def Let_def storeFilters_eq and_then_def)

lemma filter_change_request_eq:
  "filter_change_request key val s
   = Normal (s\<lparr>filters := spread_with (filters s) key val, filters_is_initialFilters := False,
          localStorage := (case setItem (localStorage s) STORAGE_KEY
                                  (JSON_stringify (spread_with (filters s) key val)) of
                             Normal st' \<Rightarrow> st' | Throw e \<Rightarrow> localStorage s),
          isLoading := True,
          searchVideos_calls := searchVideos_calls s
             @ [spread_with (filters s) key val, spread_with (filters s) key val],
          pending := pending s @ [length (searchVideos_calls s), Suc (length (searchVideos_calls s))]\<rparr>)"
  by (simp add: filter_change_request_def handleFilterChange_eq and_then_def
        useEffect_filters_def performSearch_def)

lemma handleClearFilters_eq:
  "handleClearFilters s
   = Normal (s\<lparr>filters := initialFilters, filters_is_initialFilters := True,
          localStorage := (case setItem (localStorage s) STORAGE_KEY (JSON_stringify initialFilters) of
                             Normal st' \<Rightarrow> st' | Throw e \<Rightarrow> localStorage s)\<rparr>)"
  by (simp add: handleClearFilters_def storeFilters_eq and_then_def)

lemma clear_filters_request_eq:
  "clear_filters_request s
   = Normal (if filters_is_initialFilters s
       then s\<lparr>filters := initialFilters, filters_is_initialFilters := True,
          localStorage := (case setItem (localStorage s) STORAGE_KEY (JSON_stringify initialFilters) of
                             Normal st' \<Rightarrow> st' | Throw e \<Rightarrow> localStorage s)\<rparr>
       else s\<lparr>filters := initialFilters, filters_is_initialFilters := True,
          localStorage := (case setItem (localStorage s) STORAGE_KEY (JSON_stringify initialFilters) of
                             Normal st' \<Rightarrow> st' | Throw e \<Rightarrow> localStorage s),
          isLoading := True,
          searchVideos_calls := searchVideos_calls s @ [initialFilters],
          pending := pending s @ [length (searchVideos_calls s)]\<rparr>)"
  by (simp add: clear_filters_request_def handleClearFilters_eq and_then_def
        useEffect_filters_def performSearch_def)

lemma get_field_spread_with:
  "get_field k (spread_with f key val) = (if k = key then val else get_field k f)"
  by (cases k; cases key) simp_all

lemma getItem_setItem:
  "setItem st k v = Normal st' \<Longrightarrow> getItem st' k = Normal (Some v)"
  by (auto simp: setItem_def getItem_def Let_def update_conv' split: if_splits)

lemma performSearch_settled_visibleCount:
  "visibleCount (performSearch_settled vc outcome s) = visibleCount s"
  by (cases outcome) simp_all

text \<open>The page after its first render on a fresh storage, and how traces are evaluated.\<close>

lemma fresh_page_eq:
  "fresh_page = \<lparr>filters = initialFilters, filters_is_initialFilters = True, allVideos = [],
        displayedVideos = [], isLoading = True, visibleCount = 10, localStorage = fresh_storage,
        toasts = [], console_error = [], searchVideos_calls = [initialFilters], pending = [0]\<rparr>"
  by (simp add: fresh_page_def first_render_def useEffect_filters_def performSearch_def)

lemma getStoredFilters_fresh: "getStoredFilters fresh_storage = Normal TheInitialFilters"
  by (simp add: getStoredFilters_def getItem_def fresh_storage_def try_catch_def and_then_def)

lemmas trace_simps =
  and_then_def filter_change_request_eq clear_filters_request_eq settle_def load_more_click_def
  hasMore_def handleLoadMore_def performSearch_visibleCount_def fresh_page_eq Let_def

subsection \<open>A filter change\<close>

text \<open>
  C4. A filter-change request that sets the field \<open>key\<close> to \<open>val\<close> returns. Afterwards
  \<open>filters\<close> is the former FilterSet with that field replaced and the other three fields
  unchanged; \<open>storeFilters\<close> has been applied to exactly this FilterSet, so that on an
  accessible storage with room for it the slot \<open>disha-filters\<close> holds its JSON text; and
  \<open>searchVideos\<close> has been called with exactly this FilterSet (twice: by the handler, and
  by the effect, which runs because \<open>filters\<close> is a new object).
\<close>

theorem filter_change_persists_and_searches:
  "returned (filter_change_request key val s) (\<lambda>s'.
      filters s' = spread_with (filters s) key val
    \<and> (\<forall>k. get_field k (filters s') = (if k = key then val else get_field k (filters s)))
    \<and> storeFilters (filters s') (localStorage s) = Normal (localStorage s')
    \<and> (accessible (localStorage s)
         \<and> usage (AList.update STORAGE_KEY (JSON_stringify (filters s')) (items (localStorage s)))
             \<le> quota (localStorage s)
        \<longrightarrow> getItem (localStorage s') STORAGE_KEY = Normal (Some (JSON_stringify (filters s'))))
    \<and> searchVideos_calls s' = searchVideos_calls s @ [filters s', filters s'])"
proof -
  let ?f = "spread_with (filters s) key val"
  let ?st = "case setItem (localStorage s) STORAGE_KEY (JSON_stringify ?f) of
               Normal st' \<Rightarrow> st' | Throw e \<Rightarrow> localStorage s"
  have slot: "getItem ?st STORAGE_KEY = Normal (Some (JSON_stringify ?f))"
    if "accessible (localStorage s)"
      "usage (AList.update STORAGE_KEY (JSON_stringify ?f) (items (localStorage s)))
         \<le> quota (localStorage s)"
  proof -
    have "\<exists>st'. setItem (localStorage s) STORAGE_KEY (JSON_stringify ?f) = Normal st'"
      using that by (simp add: setItem_def Let_def)
    then show ?thesis using getItem_setItem by fastforce
  qed
  show ?thesis
    unfolding filter_change_request_eq returned_def
    using slot by (simp add: get_field_spread_with storeFilters_eq)
qed

lemma hi_text:
  "JSON_stringify (initialFilters\<lparr>language := ascii ''hi''\<rparr>)
   = ascii ''{\"language\":\"hi\",\"source\":\"\",\"durationBand\":\"\",\"year\":\"\"}''"
  by (simp add: JSON_stringify_def json_member_def QuoteJSONString_def initialFilters_def
        ascii_def quote_unit_def is_lead_def is_trail_def)

theorem filter_change_persists_and_searches_witness:
  "accessible (localStorage fresh_page)
   \<and> usage (AList.update STORAGE_KEY
         (JSON_stringify (spread_with (filters fresh_page) Language (ascii ''hi'')))
         (items (localStorage fresh_page))) \<le> quota (localStorage fresh_page)
   \<and> returned (filter_change_request Language (ascii ''hi'') fresh_page) (\<lambda>s'.
        filters s' = initialFilters\<lparr>language := ascii ''hi''\<rparr>
      \<and> getItem (localStorage s') STORAGE_KEY
          = Normal (Some (ascii ''{\"language\":\"hi\",\"source\":\"\",\"durationBand\":\"\",\"year\":\"\"}''))
      \<and> searchVideos_calls s'
          = [initialFilters, initialFilters\<lparr>language := ascii ''hi''\<rparr>,
             initialFilters\<lparr>language := ascii ''hi''\<rparr>])"
proof -
  have f: "spread_with (filters fresh_page) Language (ascii ''hi'')
           = initialFilters\<lparr>language := ascii ''hi''\<rparr>"
    by (simp add: fresh_page_eq)
  have a: "accessible (localStorage fresh_page)"
    by (simp add: fresh_page_eq fresh_storage_def)
  have b: "usage (AList.update STORAGE_KEY
         (JSON_stringify (spread_with (filters fresh_page) Language (ascii ''hi'')))
         (items (localStorage fresh_page))) \<le> quota (localStorage fresh_page)"
    unfolding f hi_text
    by (simp add: fresh_page_eq fresh_storage_def usage_def STORAGE_KEY_def ascii_def)
  have c: "searchVideos_calls fresh_page = [initialFilters]"
    by (simp add: fresh_page_eq)
  obtain s' where s': "filter_change_request Language (ascii ''hi'') fresh_page = Normal s'"
    by (simp add: filter_change_request_eq)
  have "filters s' = initialFilters\<lparr>language := ascii ''hi''\<rparr>
      \<and> getItem (localStorage s') STORAGE_KEY
          = Normal (Some (ascii ''{\"language\":\"hi\",\"source\":\"\",\"durationBand\":\"\",\"year\":\"\"}''))
      \<and> searchVideos_calls s'
          = [initialFilters, initialFilters\<lparr>language := ascii ''hi''\<rparr>,
             initialFilters\<lparr>language := ascii ''hi''\<rparr>]"
    using filter_change_persists_and_searches [of Language "ascii ''hi''" fresh_page] a b
    unfolding s' returned_def completion.case f c
    by (simp add: hi_text)
  then show ?thesis
    using a b by (simp add: s' returned_def)
qed

subsection \<open>Clearing the filters\<close>

text \<open>
  C1, as stated, fails. After a filter change whose searches have resolved, a clear-filters
  request makes \<open>filters\<close> another object, the effect runs, and \<open>searchVideos\<close> is
  called once more, with the default filters; when that call resolves, the result list is
  replaced, with no filter change in between.
\<close>

theorem clear_filters_counterexample:
  "returned
     (fire_all [Settle 0 (Fulfilled [0..<5]), FilterChange Language (ascii ''hi''),
                Settle 1 (Fulfilled [7, 8]), Settle 2 (Fulfilled [7, 8])] fresh_page)
     (\<lambda>s. returned (clear_filters_request s)
        (\<lambda>s'. searchVideos_calls s' \<noteq> searchVideos_calls s
             \<and> searchVideos_calls s' = searchVideos_calls s @ [initialFilters]
             \<and> allVideos s = [7, 8]
             \<and> allVideos (settle 3 (Fulfilled [0..<5]) s') = [0..<5]))"
  by (simp add: returned_def trace_simps)

lemma clear_slot:
  assumes "accessible (localStorage s)"
    and "usage (AList.update STORAGE_KEY (JSON_stringify initialFilters) (items (localStorage s)))
         \<le> quota (localStorage s)"
    and "clear_filters_request s = Normal s'"
  shows "getItem (localStorage s') STORAGE_KEY = Normal (Some (JSON_stringify initialFilters))"
proof -
  obtain st' where st': "setItem (localStorage s) STORAGE_KEY (JSON_stringify initialFilters) = Normal st'"
    using assms(1,2) by (simp add: setItem_def Let_def)
  have "localStorage s' = st'"
    using assms(3) unfolding clear_filters_request_eq st' completion.case
    by (cases "filters_is_initialFilters s") auto
  then show ?thesis using getItem_setItem [OF st'] by simp
qed

lemma clear_frame:
  assumes "clear_filters_request s = Normal s'"
  shows "filters s' = initialFilters
      \<and> storeFilters initialFilters (localStorage s) = Normal (localStorage s')
      \<and> allVideos s' = allVideos s \<and> displayedVideos s' = displayedVideos s
      \<and> visibleCount s' = visibleCount s
      \<and> searchVideos_calls s'
          = (if filters_is_initialFilters s then searchVideos_calls s
             else searchVideos_calls s @ [initialFilters])"
  using assms unfolding clear_filters_request_eq
  by (cases "filters_is_initialFilters s") (auto simp: storeFilters_eq)

lemma clear_effect:
  assumes "clear_filters_request s = Normal s'" and "\<not> filters_is_initialFilters s"
  shows "isLoading s' \<and> length (searchVideos_calls s) \<in> set (pending s')
       \<and> allVideos (settle (length (searchVideos_calls s)) (Fulfilled R) s') = R
       \<and> displayedVideos (settle (length (searchVideos_calls s)) (Fulfilled R) s') = take 10 R
       \<and> filters (settle (length (searchVideos_calls s)) (Fulfilled R) s') = initialFilters"
  using assms unfolding clear_filters_request_eq
  by (auto simp: settle_def performSearch_visibleCount_def)

lemma initial_text:
  "JSON_stringify initialFilters
   = ascii ''{\"language\":\"\",\"source\":\"\",\"durationBand\":\"\",\"year\":\"\"}''"
  by (simp add: JSON_stringify_def json_member_def QuoteJSONString_def initialFilters_def
        ascii_def quote_unit_def is_lead_def is_trail_def)

lemma hi_page:
  "filter_change_request Language (ascii ''hi'') fresh_page
   = Normal \<lparr>filters = initialFilters\<lparr>language := ascii ''hi''\<rparr>,
        filters_is_initialFilters = False, allVideos = [], displayedVideos = [],
        isLoading = True, visibleCount = 10,
        localStorage = fresh_storage\<lparr>items := [(STORAGE_KEY,
           JSON_stringify (initialFilters\<lparr>language := ascii ''hi''\<rparr>))]\<rparr>,
        toasts = [], console_error = [],
        searchVideos_calls = [initialFilters, initialFilters\<lparr>language := ascii ''hi''\<rparr>,
           initialFilters\<lparr>language := ascii ''hi''\<rparr>],
        pending = [0, 1, 2]\<rparr>"
proof -
  have "setItem fresh_storage STORAGE_KEY (JSON_stringify (initialFilters\<lparr>language := ascii ''hi''\<rparr>))
      = Normal (fresh_storage\<lparr>items := [(STORAGE_KEY,
           JSON_stringify (initialFilters\<lparr>language := ascii ''hi''\<rparr>))]\<rparr>)"
    unfolding hi_text
    by (simp add: setItem_def fresh_storage_def usage_def STORAGE_KEY_def ascii_def)
  then show ?thesis
    by (simp add: filter_change_request_eq fresh_page_eq)
qed

text \<open>
  C1, amended. A clear-filters request returns; \<open>filters\<close> is the default FilterSet and
  \<open>storeFilters\<close> has been applied to it, so that on an accessible storage with room for it
  the slot holds the JSON text of the default FilterSet; the request itself leaves
  \<open>allVideos\<close>, \<open>displayedVideos\<close> and \<open>visibleCount\<close> as they were.
  \<open>handleClearFilters\<close> calls no search, but the effect on \<open>filters\<close> calls
  \<open>searchVideos\<close> once with the default FilterSet, unless \<open>filters\<close> was the object
  \<open>initialFilters\<close> already; that call is pending with the loading flag set, and when it
  is fulfilled with a list \<open>R\<close>, the result list becomes \<open>R\<close> and its first 10 videos are
  displayed.
\<close>

theorem clear_filters_resets_and_effect_searches:
  "returned (handleClearFilters s) (\<lambda>s'. searchVideos_calls s' = searchVideos_calls s)
   \<and> returned (clear_filters_request s) (\<lambda>s'.
        filters s' = initialFilters
      \<and> storeFilters initialFilters (localStorage s) = Normal (localStorage s')
      \<and> (accessible (localStorage s)
           \<and> usage (AList.update STORAGE_KEY (JSON_stringify initialFilters)
                      (items (localStorage s))) \<le> quota (localStorage s)
          \<longrightarrow> getItem (localStorage s') STORAGE_KEY
                = Normal (Some (JSON_stringify initialFilters)))
      \<and> allVideos s' = allVideos s \<and> displayedVideos s' = displayedVideos s
      \<and> visibleCount s' = visibleCount s
      \<and> searchVideos_calls s'
          = (if filters_is_initialFilters s then searchVideos_calls s
             else searchVideos_calls s @ [initialFilters])
      \<and> (\<not> filters_is_initialFilters s
          \<longrightarrow> isLoading s'
              \<and> length (searchVideos_calls s) \<in> set (pending s')
              \<and> (\<forall>R. allVideos (settle (length (searchVideos_calls s)) (Fulfilled R) s') = R
                    \<and> displayedVideos (settle (length (searchVideos_calls s)) (Fulfilled R) s')
                        = take 10 R
                    \<and> filters (settle (length (searchVideos_calls s)) (Fulfilled R) s')
                        = initialFilters)))"
proof -
  obtain s' where s': "clear_filters_request s = Normal s'"
    by (simp add: clear_filters_request_eq)
  have handler: "returned (handleClearFilters s) (\<lambda>s'. searchVideos_calls s' = searchVideos_calls s)"
    by (simp add: returned_def handleClearFilters_eq)
  show ?thesis
    unfolding s' returned_def [of "Normal s'"] completion.case
    using handler clear_frame [OF s'] clear_slot [OF _ _ s'] clear_effect [OF s']
    by blast
qed

theorem clear_filters_resets_and_effect_searches_witness:
  "filters_is_initialFilters fresh_page
   \<and> returned (clear_filters_request fresh_page)
       (\<lambda>s'. filters s' = initialFilters \<and> searchVideos_calls s' = [initialFilters])
   \<and> returned (filter_change_request Language (ascii ''hi'') fresh_page) (\<lambda>s.
        \<not> filters_is_initialFilters s
      \<and> accessible (localStorage s)
      \<and> usage (AList.update STORAGE_KEY (JSON_stringify initialFilters) (items (localStorage s)))
          \<le> quota (localStorage s)
      \<and> getItem (localStorage s) STORAGE_KEY
          = Normal (Some (ascii ''{\"language\":\"hi\",\"source\":\"\",\"durationBand\":\"\",\"year\":\"\"}''))
      \<and> returned (clear_filters_request s) (\<lambda>s'. filters s' = initialFilters
           \<and> getItem (localStorage s') STORAGE_KEY
               = Normal (Some (ascii ''{\"language\":\"\",\"source\":\"\",\"durationBand\":\"\",\"year\":\"\"}''))
           \<and> searchVideos_calls s'
               = [initialFilters, initialFilters\<lparr>language := ascii ''hi''\<rparr>,
                  initialFilters\<lparr>language := ascii ''hi''\<rparr>, initialFilters]
           \<and> 3 \<in> set (pending s')
           \<and> allVideos (settle 3 (Fulfilled [7, 8, 9]) s') = [7, 8, 9]
           \<and> displayedVideos (settle 3 (Fulfilled [7, 8, 9]) s') = [7, 8, 9]))"
proof -
  obtain s where s: "filter_change_request Language (ascii ''hi'') fresh_page = Normal s"
    and n: "\<not> filters_is_initialFilters s"
    and c: "searchVideos_calls s = [initialFilters, initialFilters\<lparr>language := ascii ''hi''\<rparr>,
                  initialFilters\<lparr>language := ascii ''hi''\<rparr>]"
    and st: "localStorage s = fresh_storage\<lparr>items := [(STORAGE_KEY,
           JSON_stringify (initialFilters\<lparr>language := ascii ''hi''\<rparr>))]\<rparr>"
    by (simp add: hi_page)
  have a: "accessible (localStorage s)" by (simp add: st fresh_storage_def)
  have u: "usage (AList.update STORAGE_KEY (JSON_stringify initialFilters) (items (localStorage s)))
          \<le> quota (localStorage s)"
    unfolding st initial_text
    by (simp add: fresh_storage_def usage_def STORAGE_KEY_def ascii_def)
  have g: "getItem (localStorage s) STORAGE_KEY
          = Normal (Some (ascii ''{\"language\":\"hi\",\"source\":\"\",\"durationBand\":\"\",\"year\":\"\"}''))"
    unfolding st by (simp add: getItem_def fresh_storage_def hi_text)
  have i: "filters_is_initialFilters fresh_page" "searchVideos_calls fresh_page = [initialFilters]"
    by (simp_all add: fresh_page_eq)
  obtain t where t: "clear_filters_request fresh_page = Normal t"
    by (simp add: clear_filters_request_eq)
  obtain w where w: "clear_filters_request s = Normal w"
    by (simp add: clear_filters_request_eq)
  have len: "length (searchVideos_calls s) = 3" by (simp add: c)
  show ?thesis
    using clear_filters_resets_and_effect_searches [of fresh_page]
      clear_filters_resets_and_effect_searches [of s] i n c a u g
    unfolding s t w returned_def completion.case len initial_text
    by simp
qed

subsection \<open>The window after a new search\<close>

text \<open>
  C2 at a concrete run: the first search gives 25 videos, one load-more raises
  \<open>visibleCount\<close> to 20, the language is changed, and the new searches give 35 videos.
  Then the first 10 of them are displayed, but \<open>visibleCount\<close> is still 20, not 10, and
  the next load-more displays 30 videos.
\<close>

theorem search_after_load_more_keeps_visibleCount:
  "returned
     (fire_all [Settle 0 (Fulfilled [0..<25]), LoadMore, FilterChange Language (ascii ''hi''),
                Settle 1 (Fulfilled [100..<135]), Settle 2 (Fulfilled [100..<135])] fresh_page)
     (\<lambda>s. allVideos s = [100..<135] \<and> displayedVideos s = [100..<110] \<and> visibleCount s = 20
          \<and> visibleCount s \<noteq> 10
          \<and> displayedVideos (load_more_click s) = [100..<130])"
  by (simp add: returned_def trace_simps)

text \<open>
  C5 at the same run. Between the new search and the next one, before any load-more
  request, 10 videos are displayed while \<open>visibleCount\<close> is 20 and the result list has 35
  videos, so the displayed list is not the prefix of length \<open>min visibleCount |allVideos|\<close>,
  which has 20 videos; the load-more button is rendered and enabled in that state.
\<close>

theorem window_prefix_broken_after_search:
  "returned
     (fire_all [Settle 0 (Fulfilled [0..<25]), LoadMore, FilterChange Language (ascii ''hi''),
                Settle 1 (Fulfilled [100..<135]), Settle 2 (Fulfilled [100..<135])] fresh_page)
     (\<lambda>s. pending s = [] \<and> \<not> isLoading s \<and> hasMore s
          \<and> visibleCount s = 20 \<and> allVideos s = [100..<135]
          \<and> displayedVideos s = [100..<110]
          \<and> take (min (visibleCount s) (length (allVideos s))) (allVideos s) = [100..<120]
          \<and> displayedVideos s
              \<noteq> take (min (visibleCount s) (length (allVideos s))) (allVideos s))"
  by (simp add: returned_def trace_simps)

subsection \<open>The load-more button\<close>




subsection \<open>Overlapping searches\<close>

text \<open>
  C9, as stated, fails. The language is set to \<open>en\<close> (calls 1 and 2) and then to \<open>hi\<close>
  (calls 3 and 4) before anything resolves; the calls for \<open>hi\<close> resolve first, those for
  \<open>en\<close> afterwards. In the end the filters say \<open>hi\<close> and the videos found for \<open>en\<close>
  are displayed.
\<close>

theorem late_resolution_counterexample:
  "returned
     (fire_all [Settle 0 (Fulfilled []), FilterChange Language (ascii ''en''),
                FilterChange Language (ascii ''hi''),
                Settle 3 (Fulfilled [30, 31]), Settle 4 (Fulfilled [30, 31]),
                Settle 1 (Fulfilled [10, 11, 12]), Settle 2 (Fulfilled [10, 11, 12])] fresh_page)
     (\<lambda>s. filters s = initialFilters\<lparr>language := ascii ''hi''\<rparr>
          \<and> searchVideos_calls s ! 1 = initialFilters\<lparr>language := ascii ''en''\<rparr>
          \<and> searchVideos_calls s ! 3 = initialFilters\<lparr>language := ascii ''hi''\<rparr>
          \<and> pending s = []
          \<and> allVideos s = [10, 11, 12] \<and> displayedVideos s = [10, 11, 12]
          \<and> displayedVideos s \<noteq> [30, 31])"
  by (simp add: returned_def trace_simps)

text \<open>
  C9, amended. No resolution is discarded: when two calls \<open>a\<close> and \<open>b\<close> are pending and
  \<open>b\<close> is fulfilled before \<open>a\<close>, the result list is that of \<open>a\<close>, the call fulfilled
  last, whichever was started first; its first 10 videos are displayed, and \<open>filters\<close> is
  untouched.
\<close>

theorem last_resolution_wins:
  assumes "a \<in> set (pending s)" and "b \<in> set (pending s)" and "a \<noteq> b"
  shows "allVideos (settle a (Fulfilled RA) (settle b (Fulfilled RB) s)) = RA
       \<and> displayedVideos (settle a (Fulfilled RA) (settle b (Fulfilled RB) s)) = take 10 RA
       \<and> filters (settle a (Fulfilled RA) (settle b (Fulfilled RB) s)) = filters s"
  using assms by (simp add: settle_def performSearch_visibleCount_def)

theorem last_resolution_wins_witness:
  "returned
     (fire_all [FilterChange Language (ascii ''en''), FilterChange Language (ascii ''hi'')] fresh_page)
     (\<lambda>s. 1 \<in> set (pending s) \<and> 3 \<in> set (pending s) \<and> (1::nat) \<noteq> 3
          \<and> searchVideos_calls s ! 1 = initialFilters\<lparr>language := ascii ''en''\<rparr>
          \<and> searchVideos_calls s ! 3 = initialFilters\<lparr>language := ascii ''hi''\<rparr>
          \<and> filters (settle 1 (Fulfilled [10, 11, 12]) (settle 3 (Fulfilled [30, 31]) s))
              = initialFilters\<lparr>language := ascii ''hi''\<rparr>
          \<and> allVideos (settle 1 (Fulfilled [10, 11, 12]) (settle 3 (Fulfilled [30, 31]) s))
              = [10, 11, 12]
          \<and> displayedVideos (settle 1 (Fulfilled [10, 11, 12]) (settle 3 (Fulfilled [30, 31]) s))
              = [10, 11, 12])"
proof -
  obtain s where s: "fire_all [FilterChange Language (ascii ''en''), FilterChange Language (ascii ''hi'')] fresh_page = Normal s"
    and p: "1 \<in> set (pending s)" "3 \<in> set (pending s)"
    and c: "searchVideos_calls s ! 1 = initialFilters\<lparr>language := ascii ''en''\<rparr>"
       "searchVideos_calls s ! 3 = initialFilters\<lparr>language := ascii ''hi''\<rparr>"
    and f: "filters s = initialFilters\<lparr>language := ascii ''hi''\<rparr>"
    by (simp add: trace_simps)
  have n: "(1::nat) \<noteq> 3" by simp
  show ?thesis
    unfolding s returned_def completion.case
    using last_resolution_wins [OF p n, of "[10, 11, 12]" "[30, 31]"] p c f
    by simp
qed

end
